theory Spec2Isabelle
  imports Main "HOL-Library.Word"
begin

section \<open>Build configuration\<close>

text \<open>
  \<^verbatim>\<open>hemi.h\<close> is configured by preprocessor symbols only. A build is the set of symbols
  that are defined when the header is read: \<^verbatim>\<open>__CUDACC__\<close> (the CUDA compiler),
  \<^verbatim>\<open>__CUDA_ARCH__\<close> (its device pass), \<^verbatim>\<open>DEBUG\<close> and \<^verbatim>\<open>_DEBUG\<close> (tested by the
  header itself) and \<^verbatim>\<open>NDEBUG\<close>, which decides what the \<^verbatim>\<open>assert\<close> of
  \<^verbatim>\<open><assert.h>\<close> expands to.
\<close>

record build =
  def_CUDACC :: bool
  def_CUDA_ARCH :: bool
  def_DEBUG :: bool
  def_uDEBUG :: bool
  def_NDEBUG :: bool

text \<open>\<^verbatim>\<open>#if defined(DEBUG) || defined(_DEBUG)\<close>\<close>

definition debug_enabled :: "build \<Rightarrow> bool" where
  "debug_enabled b \<longleftrightarrow> def_DEBUG b \<or> def_uDEBUG b"

text \<open>
  The detection macros. \<^verbatim>\<open>HEMI_DEV_CODE\<close> is defined inside the \<^verbatim>\<open>#ifdef __CUDACC__\<close>
  branch only, so it needs both symbols.
\<close>

definition HEMI_CUDA_COMPILER :: "build \<Rightarrow> bool" where
  "HEMI_CUDA_COMPILER b \<longleftrightarrow> def_CUDACC b"

definition HEMI_HOST_COMPILER :: "build \<Rightarrow> bool" where
  "HEMI_HOST_COMPILER b \<longleftrightarrow> \<not> def_CUDACC b"

definition HEMI_DEV_CODE :: "build \<Rightarrow> bool" where
  "HEMI_DEV_CODE b \<longleftrightarrow> def_CUDACC b \<and> def_CUDA_ARCH b"

definition HEMI_LOC_STRING :: "build \<Rightarrow> string" where
  "HEMI_LOC_STRING b = (if def_CUDACC b then ''Device'' else ''Host'')"

section \<open>Kernel declaration and launch macros\<close>

text \<open>
  Identifiers are strings; the token pasting \<^verbatim>\<open>name ## _kernel\<close> appends the suffix.
  A macro expansion is program text: a function declaration head, or a statement whose
  operands are the caller's expressions, of any type \<open>'e\<close>.
\<close>

record fun_head =
  fh_qualifiers :: "string list"
  fh_result :: string
  fh_symbol :: string

datatype 'e stmt =
    Call string "'e list"
  | GridLaunch string 'e 'e 'e 'e "'e list"
  | DoWhile0 "'e stmt list"

definition HEMI_KERNEL :: "build \<Rightarrow> string \<Rightarrow> fun_head" where
  "HEMI_KERNEL b name =
     (if def_CUDACC b
      then \<lparr>fh_qualifiers = [''__global__''], fh_result = ''void'',
            fh_symbol = name @ ''_kernel''\<rparr>
      else \<lparr>fh_qualifiers = [], fh_result = ''void'', fh_symbol = name\<rparr>)"

definition HEMI_KERNEL_NAME :: "build \<Rightarrow> string \<Rightarrow> string" where
  "HEMI_KERNEL_NAME b name = (if def_CUDACC b then name @ ''_kernel'' else name)"

definition HEMI_KERNEL_LAUNCH ::
  "build \<Rightarrow> string \<Rightarrow> 'e \<Rightarrow> 'e \<Rightarrow> 'e \<Rightarrow> 'e \<Rightarrow> 'e list \<Rightarrow> 'e stmt" where
  "HEMI_KERNEL_LAUNCH b name gridDim blockDim sharedBytes streamId va_args =
     (if def_CUDACC b then
        (if debug_enabled b
         then DoWhile0
                [GridLaunch (name @ ''_kernel'') gridDim blockDim sharedBytes streamId va_args,
                 Call ''checkCudaErrors'' []]
         else GridLaunch (name @ ''_kernel'') gridDim blockDim sharedBytes streamId va_args)
      else Call name va_args)"

text \<open>
  What a statement invokes, in order, and the caller's expressions that occur in it
  (and are therefore evaluated when it runs).
\<close>

fun invoked :: "'e stmt \<Rightarrow> string list" where
  "invoked (Call f xs) = [f]"
| "invoked (GridLaunch f g b s t xs) = [f]"
| "invoked (DoWhile0 ss) = concat (map invoked ss)"

fun operands :: "'e stmt \<Rightarrow> 'e list" where
  "operands (Call f xs) = xs"
| "operands (GridLaunch f g b s t xs) = [g, b, s, t] @ xs"
| "operands (DoWhile0 ss) = concat (map operands ss)"

section \<open>Constant definition and access macros\<close>

text \<open>
  \<^verbatim>\<open>HEMI_DEFINE_CONSTANT(def, value)\<close> expands to variable definitions. Its first
  argument is a declarator such as \<^verbatim>\<open>float Pi\<close>: the declared type, then the name the suffix
  is pasted onto. Under the CUDA compiler there are two definitions, a \<^verbatim>\<open>__constant__\<close>
  one and a \<^verbatim>\<open>static\<close> one; under a host compiler only the \<^verbatim>\<open>static\<close> one. A definition
  is program text: \<open>vd_init\<close> is the initializer as the caller wrote it.
\<close>

datatype storage = ConstantMem | HostStatic

record ('ty, 'v) var_def =
  vd_storage :: storage
  vd_type :: 'ty
  vd_symbol :: string
  vd_init :: 'v

definition HEMI_DEFINE_CONSTANT ::
  "build \<Rightarrow> 'ty \<times> string \<Rightarrow> 'v \<Rightarrow> ('ty, 'v) var_def list" where
  "HEMI_DEFINE_CONSTANT b def v =
     (if def_CUDACC b
      then [\<lparr>vd_storage = ConstantMem, vd_type = fst def,
              vd_symbol = snd def @ ''_devconst'', vd_init = v\<rparr>,
            \<lparr>vd_storage = HostStatic, vd_type = fst def,
              vd_symbol = snd def @ ''_hostconst'', vd_init = v\<rparr>]
      else [\<lparr>vd_storage = HostStatic, vd_type = fst def,
              vd_symbol = snd def @ ''_hostconst'', vd_init = v\<rparr>])"

text \<open>
  \<^verbatim>\<open>HEMI_DEV_CONSTANT\<close> is defined in the \<^verbatim>\<open>__CUDACC__\<close> branch only: under a host
  compiler there is no such macro, which is the value \<open>None\<close>.
\<close>

definition HEMI_DEV_CONSTANT :: "build \<Rightarrow> string \<Rightarrow> string option" where
  "HEMI_DEV_CONSTANT b name = (if def_CUDACC b then Some (name @ ''_devconst'') else None)"

definition HEMI_CONSTANT :: "build \<Rightarrow> string \<Rightarrow> string" where
  "HEMI_CONSTANT b name =
     (if def_CUDACC b
      then (if HEMI_DEV_CODE b then name @ ''_devconst'' else name @ ''_hostconst'')
      else name @ ''_hostconst'')"

text \<open>Resolving a symbol: the variable definition in scope that carries this name.\<close>

definition resolve :: "('ty, 'v) var_def list \<Rightarrow> string \<Rightarrow> ('ty, 'v) var_def option" where
  "resolve ds nm = find (\<lambda>d. vd_symbol d = nm) ds"

text \<open>
  What a variable holds, and so what a read of it yields, is not its initializer but the
  initializer converted to the declared type: \<^verbatim>\<open>T name = value;\<close> stores \<open>conv T value\<close>.
  The conversion is the language's, not the header's, and is a parameter here.
\<close>

definition stored :: "('ty \<Rightarrow> 'v \<Rightarrow> 'v) \<Rightarrow> ('ty, 'v) var_def \<Rightarrow> 'v" where
  "stored conv d = conv (vd_type d) (vd_init d)"

definition read_constant ::
  "('ty \<Rightarrow> 'v \<Rightarrow> 'v) \<Rightarrow> ('ty, 'v) var_def list \<Rightarrow> string \<Rightarrow> 'v option" where
  "read_constant conv ds nm = map_option (stored conv) (resolve ds nm)"

text \<open>
  The conversion for three integer types of CUDA's compilers (32-bit \<^verbatim>\<open>int\<close> and
  \<^verbatim>\<open>unsigned int\<close>, 64-bit \<^verbatim>\<open>long long\<close>), on integer constants: the value is reduced
  modulo \<open>2 ^ 32\<close> or \<open>2 ^ 64\<close> into the range of the type.
\<close>

datatype int_type = C_int | C_unsigned_int | C_long_long

fun int_conversion :: "int_type \<Rightarrow> int \<Rightarrow> int" where
  "int_conversion C_int v = signed_take_bit 31 v"
| "int_conversion C_unsigned_int v = take_bit 32 v"
| "int_conversion C_long_long v = signed_take_bit 63 v"

section \<open>Error-check helpers\<close>

text \<open>
  The CUDA runtime is not part of the header: its three entry points are a parameter,
  acting on a runtime state of any type \<open>'rt\<close>. \<^verbatim>\<open>cudaError_t\<close> is an enumeration whose
  value 0 is \<^verbatim>\<open>cudaSuccess\<close>.
\<close>

type_synonym cudaError_t = int

definition cudaSuccess :: cudaError_t where
  "cudaSuccess = 0"

record 'rt cuda_runtime =
  cudaDeviceSynchronize :: "'rt \<Rightarrow> cudaError_t \<times> 'rt"
  cudaGetLastError :: "'rt \<Rightarrow> cudaError_t \<times> 'rt"
  cudaGetErrorString :: "cudaError_t \<Rightarrow> string"

text \<open>
  What the process does to the world is a trace: the calls into the runtime, the lines
  written to \<^verbatim>\<open>stderr\<close>, and the diagnostic of a failed assertion (it names the
  expression; the rest of its text is up to the C library). A run either returns or is
  ended by a failed assertion.
\<close>

datatype event = DeviceSync | LastErrorQuery | Stderr string | AssertDiagnostic string

record 'rt world =
  runtime :: 'rt
  trace :: "event list"

datatype halt = AssertionFailed

definition fprintf_stderr :: "string \<Rightarrow> 'rt world \<Rightarrow> 'rt world" where
  "fprintf_stderr s w = w\<lparr>trace := trace w @ [Stderr s]\<rparr>"

text \<open>
  \<^verbatim>\<open>assert(e)\<close> of \<^verbatim>\<open><assert.h>\<close>: nothing when \<^verbatim>\<open>NDEBUG\<close> is defined; otherwise,
  when \<open>e\<close> is false, a diagnostic on \<^verbatim>\<open>stderr\<close> and \<^verbatim>\<open>abort()\<close>.
\<close>

definition c_assert :: "build \<Rightarrow> bool \<Rightarrow> string \<Rightarrow> 'rt world \<Rightarrow> (halt + unit) \<times> 'rt world" where
  "c_assert b e expr w =
     (if def_NDEBUG b \<or> e then (Inr (), w)
      else (Inl AssertionFailed, w\<lparr>trace := trace w @ [AssertDiagnostic expr]\<rparr>))"

definition runtime_error_line :: "'rt cuda_runtime \<Rightarrow> cudaError_t \<Rightarrow> string" where
  "runtime_error_line api r = ''CUDA Runtime Error: '' @ cudaGetErrorString api r @ [CHR 0x0A]"

definition launch_error_line :: "'rt cuda_runtime \<Rightarrow> cudaError_t \<Rightarrow> string" where
  "launch_error_line api r = ''CUDA Launch Error: '' @ cudaGetErrorString api r @ [CHR 0x0A]"

definition checkCuda ::
  "'rt cuda_runtime \<Rightarrow> build \<Rightarrow> cudaError_t \<Rightarrow> 'rt world \<Rightarrow> (halt + cudaError_t) \<times> 'rt world" where
  "checkCuda api b result w =
     (if debug_enabled b then
        (if result \<noteq> cudaSuccess then
           (let w1 = fprintf_stderr (runtime_error_line api result) w
            in case c_assert b (result = cudaSuccess) ''result == cudaSuccess'' w1 of
                 (Inl h, w2) \<Rightarrow> (Inl h, w2)
               | (Inr _, w2) \<Rightarrow> (Inr result, w2))
         else (Inr result, w))
      else (Inr result, w))"

definition checkCudaErrors ::
  "'rt cuda_runtime \<Rightarrow> build \<Rightarrow> 'rt world \<Rightarrow> (halt + cudaError_t) \<times> 'rt world" where
  "checkCudaErrors api b w =
     (if debug_enabled b then
        (let (r1, rt1) = cudaDeviceSynchronize api (runtime w);
             w1 = w\<lparr>runtime := rt1, trace := trace w @ [DeviceSync]\<rparr>;
             w2 = (if r1 \<noteq> cudaSuccess
                   then fprintf_stderr (launch_error_line api r1) w1 else w1);
             (r2, rt2) = cudaGetLastError api (runtime w2);
             w3 = w2\<lparr>runtime := rt2, trace := trace w2 @ [LastErrorQuery]\<rparr>
         in case checkCuda api b r2 w3 of
              (Inl h, w4) \<Rightarrow> (Inl h, w4)
            | (Inr _, w4) \<Rightarrow> (Inr r2, w4))
      else (Inr cudaSuccess, w))"

text \<open>
  Two calls in succession: the second one runs only if the first returned. What an
  observer of the process sees of a run: how it ended, and what was written to
  \<^verbatim>\<open>stderr\<close>.
\<close>

definition twice ::
  "('w \<Rightarrow> (halt + 'a) \<times> 'w) \<Rightarrow> 'w \<Rightarrow> (halt + 'a) \<times> 'w" where
  "twice f w = (case f w of (Inl h, w1) \<Rightarrow> (Inl h, w1) | (Inr _, w1) \<Rightarrow> f w1)"

fun on_stderr :: "event \<Rightarrow> bool" where
  "on_stderr (Stderr s) = True"
| "on_stderr (AssertDiagnostic e) = True"
| "on_stderr DeviceSync = False"
| "on_stderr LastErrorQuery = False"

definition observed :: "(halt + 'a) \<times> 'rt world \<Rightarrow> (halt + 'a) \<times> event list" where
  "observed run = (fst run, filter on_stderr (trace (snd run)))"

section \<open>Work-partitioning helpers\<close>

text \<open>
  The CUDA built-in variables \<^verbatim>\<open>blockIdx\<close>, \<^verbatim>\<open>blockDim\<close>, \<^verbatim>\<open>threadIdx\<close> and
  \<^verbatim>\<open>gridDim\<close> have three \<^verbatim>\<open>unsigned int\<close> components. The helpers compute in
  \<^verbatim>\<open>unsigned int\<close>, which wraps at \<open>2 ^ 32\<close>, and return the result as an \<^verbatim>\<open>int\<close>:
  the same 32 bits read in two's complement.
\<close>

record dim3 =
  dim_x :: "32 word"
  dim_y :: "32 word"
  dim_z :: "32 word"

record thread_context =
  blockIdx :: dim3
  blockDim :: dim3
  threadIdx :: dim3
  gridDim :: dim3

definition hemiGetElementOffset :: "build \<Rightarrow> thread_context \<Rightarrow> int" where
  "hemiGetElementOffset b c =
     (if HEMI_DEV_CODE b
      then sint (dim_x (blockIdx c) * dim_x (blockDim c) + dim_x (threadIdx c))
      else 0)"

definition hemiGetElementStride :: "build \<Rightarrow> thread_context \<Rightarrow> int" where
  "hemiGetElementStride b c =
     (if HEMI_DEV_CODE b then sint (dim_x (blockDim c) * dim_x (gridDim c)) else 1)"

text \<open>
  The loop the helpers are written for:
  \<^verbatim>\<open>for(int idx = offset; idx < N; idx += stride) processElement(..., idx, ...);\<close>
  The model records the indices handed to the body, in order. \<^verbatim>\<open>idx\<close> is an \<^verbatim>\<open>int\<close>:
  an increment that leaves its range is undefined behaviour, which ends the run with a
  fault. With a stride of 0 the loop does not return, which is the value \<open>None\<close>.
\<close>

definition INT_MAX :: int where
  "INT_MAX = 2147483647"

definition INT_MIN :: int where
  "INT_MIN = - 2147483648"

datatype loop_fault = SignedOverflow

partial_function (option) strided_loop ::
  "int \<Rightarrow> int \<Rightarrow> int \<Rightarrow> int list \<Rightarrow> (loop_fault + int list) option" where
  "strided_loop idx N stride visited =
     (if idx < N then
        (if INT_MIN \<le> idx + stride \<and> idx + stride \<le> INT_MAX
         then strided_loop (idx + stride) N stride (visited @ [idx])
         else Some (Inl SignedOverflow))
      else Some (Inr visited))"

section \<open>Sample inputs\<close>

text \<open>
  Builds and a small runtime on which the definitions are evaluated. The runtime follows
  the CUDA programming guide: the device work has a status that a synchronization
  reports; every failure a call reports is also stored in an error variable;
  \<^verbatim>\<open>cudaGetLastError\<close> returns that variable and resets it to \<^verbatim>\<open>cudaSuccess\<close>.
\<close>

definition host_build :: build where
  "host_build = \<lparr>def_CUDACC = False, def_CUDA_ARCH = False, def_DEBUG = False,
                 def_uDEBUG = False, def_NDEBUG = False\<rparr>"

definition host_debug_build :: build where
  "host_debug_build = host_build\<lparr>def_DEBUG := True\<rparr>"

definition host_debug_ndebug_build :: build where
  "host_debug_ndebug_build = host_build\<lparr>def_DEBUG := True, def_NDEBUG := True\<rparr>"

definition cuda_host_pass :: build where
  "cuda_host_pass = host_build\<lparr>def_CUDACC := True\<rparr>"

definition cuda_device_pass :: build where
  "cuda_device_pass = host_build\<lparr>def_CUDACC := True, def_CUDA_ARCH := True\<rparr>"

record sample_rt =
  device_status :: cudaError_t
  error_variable :: cudaError_t

definition sample_runtime :: "sample_rt cuda_runtime" where
  "sample_runtime =
     \<lparr>cudaDeviceSynchronize = (\<lambda>rt.
        (device_status rt,
         if device_status rt \<noteq> cudaSuccess
         then rt\<lparr>error_variable := device_status rt\<rparr> else rt)),
      cudaGetLastError = (\<lambda>rt. (error_variable rt, rt\<lparr>error_variable := cudaSuccess\<rparr>)),
      cudaGetErrorString = (\<lambda>r.
        if r = 0 then ''no error''
        else if r = 2 then ''out of memory''
        else ''unrecognized error code'')\<rparr>"

definition sample_world :: "cudaError_t \<Rightarrow> cudaError_t \<Rightarrow> sample_rt world" where
  "sample_world dev err =
     \<lparr>runtime = \<lparr>device_status = dev, error_variable = err\<rparr>, trace = []\<rparr>"

definition dim1 :: "32 word \<Rightarrow> dim3" where
  "dim1 n = \<lparr>dim_x = n, dim_y = 1, dim_z = 1\<rparr>"

definition sample_thread :: thread_context where
  "sample_thread = \<lparr>blockIdx = dim1 3, blockDim = dim1 256, threadIdx = dim1 5, gridDim = dim1 8\<rparr>"

section \<open>Kernel macros: properties\<close>

text \<open>
  Claim C8. Under a host-only compiler the launch macro expands to the plain call
  \<^verbatim>\<open>name(args...)\<close>: the grid, block, shared-memory and stream operands do not occur
  in the expansion at all, the argument list is passed on as it is, and so the statement
  behaves as the undecorated call under every reading \<open>sem\<close> of statements.
\<close>

theorem host_launch_is_plain_call:
  assumes "\<not> def_CUDACC b"
  shows "HEMI_KERNEL_LAUNCH b name g bl sh st args = Call name args
       \<and> HEMI_KERNEL_LAUNCH b name g bl sh st args
           = HEMI_KERNEL_LAUNCH b name g' bl' sh' st' args
       \<and> operands (HEMI_KERNEL_LAUNCH b name g bl sh st args) = args
       \<and> invoked (HEMI_KERNEL_LAUNCH b name g bl sh st args) = [name]
       \<and> sem (HEMI_KERNEL_LAUNCH b name g bl sh st args) = sem (Call name args)"
  using assms by (simp add: HEMI_KERNEL_LAUNCH_def)

theorem host_launch_is_plain_call_witness:
  "\<not> def_CUDACC host_build
   \<and> HEMI_KERNEL_LAUNCH host_build ''saxpy'' (4::nat) 256 0 0 [7, 8] = Call ''saxpy'' [7, 8]
   \<and> operands (HEMI_KERNEL_LAUNCH host_build ''saxpy'' (4::nat) 256 0 0 [7, 8]) = [7, 8]"
proof -
  have h: "\<not> def_CUDACC host_build"
    by (simp add: host_build_def)
  from host_launch_is_plain_call
         [OF h, of "''saxpy''" "4::nat" 256 0 0 "[7, 8]" 4 256 0 0 operands] h
  show ?thesis
    by simp
qed

text \<open>
  Claim C10. In every build the declaration macro, the name macro and the launch macro
  agree on the entry point: the function \<^verbatim>\<open>HEMI_KERNEL(name)\<close> declares is the one
  \<^verbatim>\<open>HEMI_KERNEL_NAME(name)\<close> names and the one \<^verbatim>\<open>HEMI_KERNEL_LAUNCH(name, ...)\<close>
  invokes. It is \<^verbatim>\<open>name_kernel\<close> under the CUDA compiler and \<^verbatim>\<open>name\<close> under a host
  compiler. (A debug build under the CUDA compiler calls \<^verbatim>\<open>checkCudaErrors\<close> after the
  launch.)
\<close>

theorem kernel_symbol_agrees:
  "fh_symbol (HEMI_KERNEL b name) = HEMI_KERNEL_NAME b name
   \<and> invoked (HEMI_KERNEL_LAUNCH b name g bl sh st args)
       = HEMI_KERNEL_NAME b name
         # (if def_CUDACC b \<and> debug_enabled b then [''checkCudaErrors''] else [])
   \<and> HEMI_KERNEL_NAME b name = (if def_CUDACC b then name @ ''_kernel'' else name)"
  by (simp add: HEMI_KERNEL_def HEMI_KERNEL_NAME_def HEMI_KERNEL_LAUNCH_def)

theorem kernel_symbol_agrees_witness:
  "fh_symbol (HEMI_KERNEL cuda_device_pass ''saxpy'') = ''saxpy_kernel''
   \<and> invoked (HEMI_KERNEL_LAUNCH cuda_device_pass ''saxpy'' (4::nat) 256 0 0 [7, 8])
       = [''saxpy_kernel'']
   \<and> invoked (HEMI_KERNEL_LAUNCH (cuda_host_pass\<lparr>def_DEBUG := True\<rparr>) ''saxpy''
                (4::nat) 256 0 0 [7, 8])
       = [''saxpy_kernel'', ''checkCudaErrors'']
   \<and> fh_symbol (HEMI_KERNEL host_debug_build ''saxpy'') = ''saxpy''
   \<and> invoked (HEMI_KERNEL_LAUNCH host_debug_build ''saxpy'' (4::nat) 256 0 0 [7, 8])
       = [''saxpy'']"
  using kernel_symbol_agrees [of cuda_device_pass "''saxpy''" "4::nat" 256 0 0 "[7, 8]"]
        kernel_symbol_agrees [of "cuda_host_pass\<lparr>def_DEBUG := True\<rparr>" "''saxpy''"
                                 "4::nat" 256 0 0 "[7, 8]"]
        kernel_symbol_agrees [of host_debug_build "''saxpy''" "4::nat" 256 0 0 "[7, 8]"]
  by (simp add: cuda_device_pass_def cuda_host_pass_def host_debug_build_def host_build_def
      debug_enabled_def)

section \<open>Constant macros: properties\<close>

text \<open>
  Claim C6, as the header has it. A variable holds its initializer converted to the
  declared type. In every build, reading \<^verbatim>\<open>HEMI_CONSTANT(name)\<close> after
  \<^verbatim>\<open>HEMI_DEFINE_CONSTANT(T name, V)\<close> yields \<open>V\<close> converted to \<open>T\<close>, and so exactly \<open>V\<close>
  for every \<open>V\<close> that the conversion to \<open>T\<close> leaves as it is: from the \<^verbatim>\<open>_devconst\<close> copy
  in constant memory when device code is compiled, from the \<^verbatim>\<open>_hostconst\<close> copy otherwise.
  Under the CUDA compiler the definition macro emits both copies, with the same
  initializer and so the same stored value; under a host compiler it emits the
  \<^verbatim>\<open>_hostconst\<close> copy alone.
\<close>

theorem constant_round_trip:
  "read_constant conv (HEMI_DEFINE_CONSTANT b (ty, name) v) (HEMI_CONSTANT b name)
     = Some (conv ty v)
   \<and> (conv ty v = v \<longrightarrow>
        read_constant conv (HEMI_DEFINE_CONSTANT b (ty, name) v) (HEMI_CONSTANT b name) = Some v)
   \<and> resolve (HEMI_DEFINE_CONSTANT b (ty, name) v) (HEMI_CONSTANT b name)
     = Some \<lparr>vd_storage = (if HEMI_DEV_CODE b then ConstantMem else HostStatic),
             vd_type = ty,
             vd_symbol = name @ (if HEMI_DEV_CODE b then ''_devconst'' else ''_hostconst''),
             vd_init = v\<rparr>
   \<and> map (\<lambda>d. (vd_symbol d, vd_init d, stored conv d)) (HEMI_DEFINE_CONSTANT b (ty, name) v)
       = (if def_CUDACC b
          then [(name @ ''_devconst'', v, conv ty v), (name @ ''_hostconst'', v, conv ty v)]
          else [(name @ ''_hostconst'', v, conv ty v)])"
  by (simp add: read_constant_def stored_def resolve_def HEMI_DEFINE_CONSTANT_def
      HEMI_CONSTANT_def HEMI_DEV_CODE_def)

theorem constant_round_trip_witness:
  "int_conversion C_int 3000 = 3000
   \<and> read_constant int_conversion (HEMI_DEFINE_CONSTANT cuda_device_pass (C_int, ''K'') 3000)
        (HEMI_CONSTANT cuda_device_pass ''K'') = Some 3000
   \<and> read_constant int_conversion (HEMI_DEFINE_CONSTANT cuda_host_pass (C_int, ''K'') 3000)
        (HEMI_CONSTANT cuda_host_pass ''K'') = Some 3000
   \<and> read_constant int_conversion (HEMI_DEFINE_CONSTANT host_build (C_int, ''K'') 3000)
        (HEMI_CONSTANT host_build ''K'') = Some 3000
   \<and> HEMI_CONSTANT cuda_device_pass ''K'' = ''K_devconst''
   \<and> HEMI_CONSTANT cuda_host_pass ''K'' = ''K_hostconst''"
proof -
  have h: "int_conversion C_int 3000 = 3000"
    by simp
  from constant_round_trip [of int_conversion cuda_device_pass C_int "''K''" 3000]
       constant_round_trip [of int_conversion cuda_host_pass C_int "''K''" 3000]
       constant_round_trip [of int_conversion host_build C_int "''K''" 3000] h
  show ?thesis
    by (simp add: HEMI_CONSTANT_def HEMI_DEV_CODE_def cuda_device_pass_def cuda_host_pass_def
        host_build_def)
qed

text \<open>
  The claim fails in two places. \<^verbatim>\<open>HEMI_DEFINE_CONSTANT(int K, 3000000000)\<close> stores the
  constant converted to \<^verbatim>\<open>int\<close>, and the read yields -1294967296. And under a host
  compiler \<^verbatim>\<open>HEMI_DEFINE_CONSTANT(int K, 3000)\<close> defines \<^verbatim>\<open>K_hostconst\<close> and nothing
  else: there is no second copy.
\<close>

theorem constant_read_differs_or_copy_is_missing:
  "read_constant int_conversion (HEMI_DEFINE_CONSTANT host_build (C_int, ''K'') 3000000000)
     (HEMI_CONSTANT host_build ''K'') = Some (- 1294967296)
   \<and> read_constant int_conversion (HEMI_DEFINE_CONSTANT cuda_device_pass (C_int, ''K'') 3000000000)
     (HEMI_CONSTANT cuda_device_pass ''K'') = Some (- 1294967296)
   \<and> map vd_symbol (HEMI_DEFINE_CONSTANT host_build (C_int, ''K'') (3000::int))
     = [''K_hostconst'']
   \<and> resolve (HEMI_DEFINE_CONSTANT host_build (C_int, ''K'') (3000::int)) ''K_devconst'' = None"
  by (simp add: read_constant_def stored_def resolve_def HEMI_DEFINE_CONSTANT_def
      HEMI_CONSTANT_def HEMI_DEV_CODE_def host_build_def cuda_device_pass_def)

text \<open>
  Claim C7, as the header has it. Under the CUDA compiler \<^verbatim>\<open>HEMI_DEV_CONSTANT(name)\<close> is
  \<^verbatim>\<open>name_devconst\<close> in the host pass and in the device pass alike, and that symbol is the
  copy \<^verbatim>\<open>HEMI_DEFINE_CONSTANT\<close> placed in constant memory. Under a host compiler the macro
  is not defined.
\<close>

theorem dev_constant_names_device_copy:
  "HEMI_DEV_CONSTANT b name = (if def_CUDACC b then Some (name @ ''_devconst'') else None)
   \<and> (def_CUDACC b \<longrightarrow>
        (\<forall>arch. HEMI_DEV_CONSTANT (b\<lparr>def_CUDA_ARCH := arch\<rparr>) name = Some (name @ ''_devconst''))
        \<and> resolve (HEMI_DEFINE_CONSTANT b (ty, name) v) (name @ ''_devconst'')
            = Some \<lparr>vd_storage = ConstantMem, vd_type = ty,
                    vd_symbol = name @ ''_devconst'', vd_init = v\<rparr>)"
  by (simp add: HEMI_DEV_CONSTANT_def resolve_def HEMI_DEFINE_CONSTANT_def)

theorem dev_constant_names_device_copy_witness:
  "HEMI_DEV_CONSTANT cuda_host_pass ''Pi'' = Some ''Pi_devconst''
   \<and> HEMI_DEV_CONSTANT cuda_device_pass ''Pi'' = Some ''Pi_devconst''
   \<and> resolve (HEMI_DEFINE_CONSTANT cuda_host_pass (''float'', ''Pi'') ''3.14159'') ''Pi_devconst''
       = Some \<lparr>vd_storage = ConstantMem, vd_type = ''float'',
               vd_symbol = ''Pi_devconst'', vd_init = ''3.14159''\<rparr>"
proof -
  have h: "def_CUDACC cuda_host_pass" "def_CUDACC cuda_device_pass"
    by (simp_all add: cuda_host_pass_def cuda_device_pass_def)
  from dev_constant_names_device_copy [of cuda_host_pass "''Pi''" "''float''" "''3.14159''"]
       dev_constant_names_device_copy [of cuda_device_pass "''Pi''" "''float''" "''3.14159''"] h
  show ?thesis by simp
qed

text \<open>Under a host compiler \<^verbatim>\<open>HEMI_DEV_CONSTANT(Pi)\<close> has no expansion.\<close>

theorem dev_constant_undefined_on_host:
  "HEMI_DEV_CONSTANT host_build ''Pi'' = None"
  by (simp add: HEMI_DEV_CONSTANT_def host_build_def)

section \<open>Error-check helpers: properties\<close>

lemma checkCuda_cases:
  "checkCuda api b r w =
     (if debug_enabled b \<and> r \<noteq> cudaSuccess
      then (if def_NDEBUG b
            then (Inr r, w\<lparr>trace := trace w @ [Stderr (runtime_error_line api r)]\<rparr>)
            else (Inl AssertionFailed,
                  w\<lparr>trace := trace w @ [Stderr (runtime_error_line api r),
                                          AssertDiagnostic ''result == cudaSuccess'']\<rparr>))
      else (Inr r, w))"
  by (simp add: checkCuda_def c_assert_def fprintf_stderr_def Let_def)

lemma checkCuda_result_passthrough:
  "(case checkCuda api b r w of (Inl h, w') \<Rightarrow> (Inl h, w') | (Inr x, w') \<Rightarrow> (Inr r, w'))
     = checkCuda api b r w"
  by (simp add: checkCuda_cases)

lemma checkCudaErrors_unfold:
  assumes "cudaDeviceSynchronize api (runtime w) = (r1, rt1)"
      and "cudaGetLastError api rt1 = (r2, rt2)"
  shows "checkCudaErrors api b w =
           (if debug_enabled b
            then checkCuda api b r2
                   (w\<lparr>runtime := rt2,
                      trace := trace w @ [DeviceSync]
                         @ (if r1 \<noteq> cudaSuccess then [Stderr (launch_error_line api r1)] else [])
                         @ [LastErrorQuery]\<rparr>)
            else (Inr cudaSuccess, w))"
  using assms
  by (simp add: checkCudaErrors_def checkCuda_result_passthrough fprintf_stderr_def)

text \<open>
  Claim C5. Given \<^verbatim>\<open>cudaSuccess\<close>, \<^verbatim>\<open>checkCuda\<close> returns it and leaves the world as it
  was (nothing written, no call into the runtime, no termination), whatever the build.
\<close>

theorem checkCuda_success_is_silent:
  "checkCuda api b cudaSuccess w = (Inr cudaSuccess, w)"
  by (simp add: checkCuda_def)

theorem checkCuda_success_is_silent_witness:
  "checkCuda sample_runtime host_debug_build 0 (sample_world 0 2) = (Inr 0, sample_world 0 2)
   \<and> checkCuda sample_runtime host_build 0 (sample_world 0 2) = (Inr 0, sample_world 0 2)"
  using checkCuda_success_is_silent [of sample_runtime host_debug_build "sample_world 0 2"]
        checkCuda_success_is_silent [of sample_runtime host_build "sample_world 0 2"]
  by (simp add: cudaSuccess_def)

text \<open>
  Claim C3, as the header has it. Given a failure status \<open>r\<close>: in a debug build whose
  assertions are enabled (\<^verbatim>\<open>NDEBUG\<close> not defined), \<^verbatim>\<open>checkCuda\<close> writes the line
  \<^verbatim>\<open>CUDA Runtime Error: \<close> followed by the runtime's error string for \<open>r\<close>, and then the
  assertion fails and ends the process; in a non-debug build it returns \<open>r\<close> and changes
  nothing.
\<close>

theorem checkCuda_failure:
  assumes "r \<noteq> cudaSuccess"
  shows "(debug_enabled b \<and> \<not> def_NDEBUG b \<longrightarrow>
            checkCuda api b r w
              = (Inl AssertionFailed,
                 w\<lparr>trace := trace w
                      @ [Stderr (''CUDA Runtime Error: '' @ cudaGetErrorString api r @ [CHR 0x0A]),
                         AssertDiagnostic ''result == cudaSuccess'']\<rparr>))
       \<and> (\<not> debug_enabled b \<longrightarrow> checkCuda api b r w = (Inr r, w))"
  using assms by (simp add: checkCuda_cases runtime_error_line_def)

theorem checkCuda_failure_witness:
  "(2::int) \<noteq> cudaSuccess
   \<and> checkCuda sample_runtime host_debug_build 2 (sample_world 0 0)
       = (Inl AssertionFailed,
          \<lparr>runtime = \<lparr>device_status = 0, error_variable = 0\<rparr>,
           trace = [Stderr (''CUDA Runtime Error: out of memory'' @ [CHR 0x0A]),
                    AssertDiagnostic ''result == cudaSuccess'']\<rparr>)
   \<and> checkCuda sample_runtime host_build 2 (sample_world 0 0) = (Inr 2, sample_world 0 0)"
proof -
  have h: "(2::int) \<noteq> cudaSuccess"
    by (simp add: cudaSuccess_def)
  from checkCuda_failure [OF h, of host_debug_build sample_runtime "sample_world 0 0"]
       checkCuda_failure [OF h, of host_build sample_runtime "sample_world 0 0"] h
  show ?thesis
    by (simp add: host_debug_build_def host_build_def debug_enabled_def sample_world_def
        sample_runtime_def)
qed

text \<open>
  A build with \<^verbatim>\<open>DEBUG\<close> and \<^verbatim>\<open>NDEBUG\<close> both defined takes the debug branch of
  \<^verbatim>\<open>checkCuda\<close>, but its \<^verbatim>\<open>assert\<close> is empty: the failure is printed and the call returns.
\<close>

theorem checkCuda_returns_when_assert_is_compiled_out:
  "debug_enabled host_debug_ndebug_build
   \<and> (2::int) \<noteq> cudaSuccess
   \<and> checkCuda sample_runtime host_debug_ndebug_build 2 (sample_world 0 0)
       = (Inr 2,
          \<lparr>runtime = \<lparr>device_status = 0, error_variable = 0\<rparr>,
           trace = [Stderr (''CUDA Runtime Error: out of memory'' @ [CHR 0x0A])]\<rparr>)"
  by (simp add: checkCuda_cases host_debug_ndebug_build_def host_build_def debug_enabled_def
      sample_world_def sample_runtime_def runtime_error_line_def cudaSuccess_def)

lemma checkCudaErrors_debug_unfold:
  assumes "debug_enabled b" "\<not> def_NDEBUG b"
      and "cudaDeviceSynchronize api (runtime w) = (r1, rt1)"
      and "cudaGetLastError api rt1 = (r2, rt2)"
  shows "checkCudaErrors api b w
           = (if r2 = cudaSuccess then Inr cudaSuccess else Inl AssertionFailed,
              w\<lparr>runtime := rt2,
                 trace := trace w @ [DeviceSync]
                    @ (if r1 \<noteq> cudaSuccess then [Stderr (launch_error_line api r1)] else [])
                    @ [LastErrorQuery]
                    @ (if r2 \<noteq> cudaSuccess
                       then [Stderr (runtime_error_line api r2),
                             AssertDiagnostic ''result == cudaSuccess'']
                       else [])\<rparr>)"
  using assms(1,2) checkCudaErrors_unfold [OF assms(3,4), of b]
  by (simp add: checkCuda_cases)

text \<open>
  Claim C4, as the header has it. In a debug build whose assertions are enabled
  (\<^verbatim>\<open>NDEBUG\<close> not defined) \<^verbatim>\<open>checkCudaErrors\<close> first synchronizes the device, then
  queries the last error; when the queried status is a failure it writes the line
  \<^verbatim>\<open>CUDA Runtime Error: \<close> with the runtime's error string, and the assertion fails and ends
  the process; otherwise it returns \<^verbatim>\<open>cudaSuccess\<close>. (A failed synchronization is first
  reported on its own line, \<^verbatim>\<open>CUDA Launch Error: ...\<close>.) In every debug build this is
  \<^verbatim>\<open>checkCuda\<close> applied to the queried status. In a non-debug build
  \<^verbatim>\<open>checkCudaErrors\<close> returns \<^verbatim>\<open>cudaSuccess\<close> and the world is untouched: no
  synchronization, no query, no output.
\<close>

theorem checkCudaErrors_steps:
  assumes "cudaDeviceSynchronize api (runtime w) = (r1, rt1)"
      and "cudaGetLastError api rt1 = (r2, rt2)"
  shows "(debug_enabled b \<and> \<not> def_NDEBUG b \<longrightarrow>
            checkCudaErrors api b w
              = (if r2 = cudaSuccess then Inr cudaSuccess else Inl AssertionFailed,
                 w\<lparr>runtime := rt2,
                    trace := trace w @ [DeviceSync]
                       @ (if r1 \<noteq> cudaSuccess
                          then [Stderr (''CUDA Launch Error: '' @ cudaGetErrorString api r1
                                         @ [CHR 0x0A])]
                          else [])
                       @ [LastErrorQuery]
                       @ (if r2 \<noteq> cudaSuccess
                          then [Stderr (''CUDA Runtime Error: '' @ cudaGetErrorString api r2
                                         @ [CHR 0x0A]),
                                AssertDiagnostic ''result == cudaSuccess'']
                          else [])\<rparr>))
       \<and> (debug_enabled b \<longrightarrow>
            checkCudaErrors api b w
              = checkCuda api b r2
                  (w\<lparr>runtime := rt2,
                     trace := trace w @ [DeviceSync]
                        @ (if r1 \<noteq> cudaSuccess
                           then [Stderr (''CUDA Launch Error: '' @ cudaGetErrorString api r1
                                          @ [CHR 0x0A])]
                           else [])
                        @ [LastErrorQuery]\<rparr>))
       \<and> (\<not> debug_enabled b \<longrightarrow> checkCudaErrors api b w = (Inr cudaSuccess, w))"
proof (intro conjI impI)
  assume "debug_enabled b \<and> \<not> def_NDEBUG b"
  then show "checkCudaErrors api b w
              = (if r2 = cudaSuccess then Inr cudaSuccess else Inl AssertionFailed,
                 w\<lparr>runtime := rt2,
                    trace := trace w @ [DeviceSync]
                       @ (if r1 \<noteq> cudaSuccess
                          then [Stderr (''CUDA Launch Error: '' @ cudaGetErrorString api r1
                                         @ [CHR 0x0A])]
                          else [])
                       @ [LastErrorQuery]
                       @ (if r2 \<noteq> cudaSuccess
                          then [Stderr (''CUDA Runtime Error: '' @ cudaGetErrorString api r2
                                         @ [CHR 0x0A]),
                                AssertDiagnostic ''result == cudaSuccess'']
                          else [])\<rparr>)"
    using checkCudaErrors_debug_unfold [OF _ _ assms, of b]
    by (simp add: launch_error_line_def runtime_error_line_def)
next
  assume "debug_enabled b"
  then show "checkCudaErrors api b w
              = checkCuda api b r2
                  (w\<lparr>runtime := rt2,
                     trace := trace w @ [DeviceSync]
                        @ (if r1 \<noteq> cudaSuccess
                           then [Stderr (''CUDA Launch Error: '' @ cudaGetErrorString api r1
                                          @ [CHR 0x0A])]
                           else [])
                        @ [LastErrorQuery]\<rparr>)"
    using checkCudaErrors_unfold [OF assms, of b]
    by (simp add: launch_error_line_def)
next
  assume "\<not> debug_enabled b"
  then show "checkCudaErrors api b w = (Inr cudaSuccess, w)"
    using checkCudaErrors_unfold [OF assms, of b] by simp
qed

theorem checkCudaErrors_steps_witness:
  "cudaDeviceSynchronize sample_runtime (runtime (sample_world 2 0))
     = (2, \<lparr>device_status = 2, error_variable = 2\<rparr>)
   \<and> cudaGetLastError sample_runtime \<lparr>device_status = 2, error_variable = 2\<rparr>
     = (2, \<lparr>device_status = 2, error_variable = 0\<rparr>)
   \<and> debug_enabled host_debug_build \<and> \<not> def_NDEBUG host_debug_build
   \<and> checkCudaErrors sample_runtime host_debug_build (sample_world 2 0)
     = (Inl AssertionFailed,
        \<lparr>runtime = \<lparr>device_status = 2, error_variable = 0\<rparr>,
         trace = [DeviceSync, Stderr (''CUDA Launch Error: out of memory'' @ [CHR 0x0A]),
                  LastErrorQuery, Stderr (''CUDA Runtime Error: out of memory'' @ [CHR 0x0A]),
                  AssertDiagnostic ''result == cudaSuccess'']\<rparr>)
   \<and> checkCudaErrors sample_runtime host_build (sample_world 2 0) = (Inr 0, sample_world 2 0)"
proof -
  have s: "cudaDeviceSynchronize sample_runtime (runtime (sample_world 2 0))
             = (2, \<lparr>device_status = 2, error_variable = 2\<rparr>)"
    by (simp add: sample_runtime_def sample_world_def cudaSuccess_def)
  have q: "cudaGetLastError sample_runtime \<lparr>device_status = 2, error_variable = 2\<rparr>
             = (2, \<lparr>device_status = 2, error_variable = 0\<rparr>)"
    by (simp add: sample_runtime_def cudaSuccess_def)
  have d: "debug_enabled host_debug_build \<and> \<not> def_NDEBUG host_debug_build"
    by (simp add: host_debug_build_def host_build_def debug_enabled_def)
  have r: "\<not> debug_enabled host_build"
    by (simp add: host_build_def debug_enabled_def)
  from checkCudaErrors_steps [OF s q, of host_debug_build] d
  have "checkCudaErrors sample_runtime host_debug_build (sample_world 2 0)
     = (Inl AssertionFailed,
        \<lparr>runtime = \<lparr>device_status = 2, error_variable = 0\<rparr>,
         trace = [DeviceSync, Stderr (''CUDA Launch Error: out of memory'' @ [CHR 0x0A]),
                  LastErrorQuery, Stderr (''CUDA Runtime Error: out of memory'' @ [CHR 0x0A]),
                  AssertDiagnostic ''result == cudaSuccess'']\<rparr>)"
    by (simp add: sample_world_def sample_runtime_def cudaSuccess_def)
  moreover from checkCudaErrors_steps [OF s q, of host_build] r
  have "checkCudaErrors sample_runtime host_build (sample_world 2 0) = (Inr 0, sample_world 2 0)"
    by (simp add: cudaSuccess_def)
  ultimately show ?thesis
    using s q d by simp
qed

text \<open>
  With \<^verbatim>\<open>DEBUG\<close> and \<^verbatim>\<open>NDEBUG\<close> both defined \<^verbatim>\<open>checkCudaErrors\<close> takes its debug
  branch, but nothing ends the process: after a failed launch it prints both lines and
  returns the failure.
\<close>

theorem checkCudaErrors_returns_when_assert_is_compiled_out:
  "debug_enabled host_debug_ndebug_build
   \<and> checkCudaErrors sample_runtime host_debug_ndebug_build (sample_world 2 0)
     = (Inr 2,
        \<lparr>runtime = \<lparr>device_status = 2, error_variable = 0\<rparr>,
         trace = [DeviceSync, Stderr (''CUDA Launch Error: out of memory'' @ [CHR 0x0A]),
                  LastErrorQuery,
                  Stderr (''CUDA Runtime Error: out of memory'' @ [CHR 0x0A])]\<rparr>)"
  by (simp add: checkCudaErrors_def checkCuda_cases fprintf_stderr_def
      host_debug_ndebug_build_def host_build_def debug_enabled_def
      sample_world_def sample_runtime_def runtime_error_line_def launch_error_line_def
      cudaSuccess_def)

lemma twice_checkCuda:
  "\<not> (debug_enabled b \<and> def_NDEBUG b)
     \<Longrightarrow> twice (checkCuda api b r) w = checkCuda api b r w"
  by (simp add: twice_def checkCuda_cases)

lemma twice_checkCudaErrors_release:
  "\<not> debug_enabled b \<Longrightarrow> twice (checkCudaErrors api b) w = checkCudaErrors api b w"
  by (simp add: twice_def checkCudaErrors_def)

text \<open>
  Claim C9, as the header has it. Calling \<^verbatim>\<open>checkCuda\<close> twice on a status is the same as
  calling it once in every build but one with \<^verbatim>\<open>DEBUG\<close> and \<^verbatim>\<open>NDEBUG\<close> both defined.
  Calling \<^verbatim>\<open>checkCudaErrors\<close> twice is the same as calling it once in a non-debug build. In
  a debug build with assertions enabled, a first call that fails ends the process; one that
  returns has returned \<^verbatim>\<open>cudaSuccess\<close>, and the second call then leaves result and output
  as they were exactly when the runtime answers its synchronization and its query with
  \<^verbatim>\<open>cudaSuccess\<close> again.
\<close>

theorem error_checks_repeatable:
  "(\<not> (debug_enabled b \<and> def_NDEBUG b) \<longrightarrow>
       twice (checkCuda api b r) w = checkCuda api b r w)
   \<and> (\<not> debug_enabled b \<longrightarrow>
       twice (checkCudaErrors api b) w = checkCudaErrors api b w)
   \<and> (debug_enabled b \<and> \<not> def_NDEBUG b \<longrightarrow>
       (case checkCudaErrors api b w of
          (Inl h, w1) \<Rightarrow> twice (checkCudaErrors api b) w = (Inl h, w1)
        | (Inr r', w1) \<Rightarrow>
            r' = cudaSuccess
            \<and> ((observed (twice (checkCudaErrors api b) w) = observed (checkCudaErrors api b w))
                 = (fst (cudaDeviceSynchronize api (runtime w1)) = cudaSuccess
                    \<and> fst (cudaGetLastError api (snd (cudaDeviceSynchronize api (runtime w1))))
                        = cudaSuccess))))"
proof (intro conjI impI)
  assume "\<not> (debug_enabled b \<and> def_NDEBUG b)"
  then show "twice (checkCuda api b r) w = checkCuda api b r w"
    by (rule twice_checkCuda)
next
  assume "\<not> debug_enabled b"
  then show "twice (checkCudaErrors api b) w = checkCudaErrors api b w"
    by (rule twice_checkCudaErrors_release)
next
  assume dbg: "debug_enabled b \<and> \<not> def_NDEBUG b"
  obtain r1 rt1 where s1: "cudaDeviceSynchronize api (runtime w) = (r1, rt1)"
    by (cases "cudaDeviceSynchronize api (runtime w)")
  obtain r2 rt2 where q1: "cudaGetLastError api rt1 = (r2, rt2)"
    by (cases "cudaGetLastError api rt1")
  define t1 where "t1 = trace w @ [DeviceSync]
      @ (if r1 \<noteq> cudaSuccess then [Stderr (launch_error_line api r1)] else [])
      @ [LastErrorQuery]
      @ (if r2 \<noteq> cudaSuccess
         then [Stderr (runtime_error_line api r2), AssertDiagnostic ''result == cudaSuccess'']
         else [])"
  define w1 where "w1 = w\<lparr>runtime := rt2, trace := t1\<rparr>"
  have first: "checkCudaErrors api b w
                 = (if r2 = cudaSuccess then Inr cudaSuccess else Inl AssertionFailed, w1)"
    using checkCudaErrors_debug_unfold [OF _ _ s1 q1, of b] dbg
    by (simp add: w1_def t1_def)
  show "case checkCudaErrors api b w of
          (Inl h, w1) \<Rightarrow> twice (checkCudaErrors api b) w = (Inl h, w1)
        | (Inr r', w1) \<Rightarrow>
            r' = cudaSuccess
            \<and> ((observed (twice (checkCudaErrors api b) w) = observed (checkCudaErrors api b w))
                 = (fst (cudaDeviceSynchronize api (runtime w1)) = cudaSuccess
                    \<and> fst (cudaGetLastError api (snd (cudaDeviceSynchronize api (runtime w1))))
                        = cudaSuccess))"
  proof (cases "r2 = cudaSuccess")
    case False
    with first show ?thesis
      by (simp add: twice_def)
  next
    case True
    obtain r3 rt3 where s2: "cudaDeviceSynchronize api (runtime w1) = (r3, rt3)"
      by (cases "cudaDeviceSynchronize api (runtime w1)")
    obtain r4 rt4 where q2: "cudaGetLastError api rt3 = (r4, rt4)"
      by (cases "cudaGetLastError api rt3")
    have second: "checkCudaErrors api b w1
        = (if r4 = cudaSuccess then Inr cudaSuccess else Inl AssertionFailed,
           w1\<lparr>runtime := rt4,
              trace := trace w1 @ [DeviceSync]
                 @ (if r3 \<noteq> cudaSuccess then [Stderr (launch_error_line api r3)] else [])
                 @ [LastErrorQuery]
                 @ (if r4 \<noteq> cudaSuccess
                    then [Stderr (runtime_error_line api r4),
                          AssertDiagnostic ''result == cudaSuccess'']
                    else [])\<rparr>)"
      using checkCudaErrors_debug_unfold [OF _ _ s2 q2, of b] dbg by simp
    have tw: "twice (checkCudaErrors api b) w = checkCudaErrors api b w1"
      using first True by (simp add: twice_def)
    have "(observed (twice (checkCudaErrors api b) w) = observed (checkCudaErrors api b w))
            = (r3 = cudaSuccess \<and> r4 = cudaSuccess)"
      unfolding tw first second using True
      by (auto simp: observed_def w1_def)
    with first True s2 q2 show ?thesis
      by simp
  qed
qed

theorem error_checks_repeatable_witness:
  "twice (checkCuda sample_runtime host_debug_build 2) (sample_world 0 0)
     = checkCuda sample_runtime host_debug_build 2 (sample_world 0 0)
   \<and> twice (checkCudaErrors sample_runtime host_build) (sample_world 2 2)
     = checkCudaErrors sample_runtime host_build (sample_world 2 2)
   \<and> observed (twice (checkCudaErrors sample_runtime host_debug_build) (sample_world 0 0))
     = observed (checkCudaErrors sample_runtime host_debug_build (sample_world 0 0))
   \<and> observed (checkCudaErrors sample_runtime host_debug_build (sample_world 0 0))
     = (Inr 0, [])"
proof -
  have b1: "debug_enabled host_debug_build \<and> \<not> def_NDEBUG host_debug_build"
    by (simp add: host_debug_build_def host_build_def debug_enabled_def)
  have b2: "\<not> debug_enabled host_build"
    by (simp add: host_build_def debug_enabled_def)
  have run: "checkCudaErrors sample_runtime host_debug_build (sample_world 0 0)
               = (Inr 0, \<lparr>runtime = \<lparr>device_status = 0, error_variable = 0\<rparr>,
                          trace = [DeviceSync, LastErrorQuery]\<rparr>)"
    by (simp add: checkCudaErrors_def checkCuda_def b1 sample_runtime_def sample_world_def
        cudaSuccess_def)
  have s2: "fst (cudaDeviceSynchronize sample_runtime \<lparr>device_status = 0, error_variable = 0\<rparr>)
              = cudaSuccess"
    by (simp add: sample_runtime_def cudaSuccess_def)
  have q2: "fst (cudaGetLastError sample_runtime
                  (snd (cudaDeviceSynchronize sample_runtime
                         \<lparr>device_status = 0, error_variable = 0\<rparr>))) = cudaSuccess"
    by (simp add: sample_runtime_def cudaSuccess_def)
  from error_checks_repeatable
         [of host_debug_build sample_runtime 2 "sample_world 0 0"] b1
  have p1: "twice (checkCuda sample_runtime host_debug_build 2) (sample_world 0 0)
              = checkCuda sample_runtime host_debug_build 2 (sample_world 0 0)"
    and p3: "observed (twice (checkCudaErrors sample_runtime host_debug_build) (sample_world 0 0))
              = observed (checkCudaErrors sample_runtime host_debug_build (sample_world 0 0))"
    by (simp_all add: run s2 q2)
  from error_checks_repeatable [of host_build sample_runtime 2 "sample_world 2 2"] b2
  have p2: "twice (checkCudaErrors sample_runtime host_build) (sample_world 2 2)
              = checkCudaErrors sample_runtime host_build (sample_world 2 2)"
    by simp
  from p1 p2 p3 run show ?thesis
    by (simp add: observed_def)
qed

text \<open>
  With \<^verbatim>\<open>DEBUG\<close> and \<^verbatim>\<open>NDEBUG\<close> both defined, a second call makes a difference.
  \<^verbatim>\<open>checkCuda\<close> on a failure status prints its line once per call. \<^verbatim>\<open>checkCudaErrors\<close>,
  with a failure in the error variable, returns that failure the first time and
  \<^verbatim>\<open>cudaSuccess\<close> the second time, the query having reset the variable.
\<close>

theorem error_checks_repeat_differs_when_assert_is_compiled_out:
  "observed (checkCuda sample_runtime host_debug_ndebug_build 2 (sample_world 0 0))
     = (Inr 2, [Stderr (''CUDA Runtime Error: out of memory'' @ [CHR 0x0A])])
   \<and> observed (twice (checkCuda sample_runtime host_debug_ndebug_build 2) (sample_world 0 0))
     = (Inr 2, [Stderr (''CUDA Runtime Error: out of memory'' @ [CHR 0x0A]),
                Stderr (''CUDA Runtime Error: out of memory'' @ [CHR 0x0A])])
   \<and> observed (checkCudaErrors sample_runtime host_debug_ndebug_build (sample_world 0 2))
     = (Inr 2, [Stderr (''CUDA Runtime Error: out of memory'' @ [CHR 0x0A])])
   \<and> observed (twice (checkCudaErrors sample_runtime host_debug_ndebug_build) (sample_world 0 2))
     = (Inr 0, [Stderr (''CUDA Runtime Error: out of memory'' @ [CHR 0x0A])])"
  by (simp add: observed_def twice_def checkCudaErrors_def checkCuda_cases
      host_debug_ndebug_build_def host_build_def debug_enabled_def
      sample_world_def sample_runtime_def runtime_error_line_def cudaSuccess_def)

text \<open>
  The sample runtime answers a repeated synchronization and query as the condition above
  asks, in each of its states: with it, a debug build with assertions enabled shows no
  difference between one call of \<^verbatim>\<open>checkCudaErrors\<close> and two.
\<close>

lemma sample_runtime_repeatable:
  assumes "debug_enabled b" and "\<not> def_NDEBUG b"
  shows "observed (twice (checkCudaErrors sample_runtime b) w)
           = observed (checkCudaErrors sample_runtime b w)"
proof -
  obtain r1 rt1 where s1: "cudaDeviceSynchronize sample_runtime (runtime w) = (r1, rt1)"
    by (cases "cudaDeviceSynchronize sample_runtime (runtime w)")
  obtain r2 rt2 where q1: "cudaGetLastError sample_runtime rt1 = (r2, rt2)"
    by (cases "cudaGetLastError sample_runtime rt1")
  note first = checkCudaErrors_debug_unfold [OF assms s1 q1]
  show ?thesis
  proof (cases "r2 = cudaSuccess")
    case False
    with first show ?thesis
      by (simp add: twice_def)
  next
    case True
    from s1 q1 True have quiet: "r1 = cudaSuccess"
      and rt2: "device_status rt2 = cudaSuccess" "error_variable rt2 = cudaSuccess"
      by (auto simp: sample_runtime_def split: if_splits)
    have s2: "cudaDeviceSynchronize sample_runtime rt2 = (cudaSuccess, rt2)"
      using rt2 by (simp add: sample_runtime_def)
    have q2: "cudaGetLastError sample_runtime rt2 = (cudaSuccess, rt2)"
      using rt2 by (simp add: sample_runtime_def)
    define w1 where "w1 = w\<lparr>runtime := rt2, trace := trace w @ [DeviceSync, LastErrorQuery]\<rparr>"
    have f: "checkCudaErrors sample_runtime b w = (Inr cudaSuccess, w1)"
      using first True quiet by (simp add: w1_def)
    have "cudaDeviceSynchronize sample_runtime (runtime w1) = (cudaSuccess, rt2)"
      using s2 by (simp add: w1_def)
    from checkCudaErrors_debug_unfold [OF assms this q2]
    have g: "checkCudaErrors sample_runtime b w1
               = (Inr cudaSuccess,
                  w1\<lparr>runtime := rt2, trace := trace w1 @ [DeviceSync, LastErrorQuery]\<rparr>)"
      by simp
    have tw: "twice (checkCudaErrors sample_runtime b) w = checkCudaErrors sample_runtime b w1"
      using f by (simp add: twice_def)
    show ?thesis
      unfolding tw f g by (simp add: observed_def w1_def)
  qed
qed

section \<open>Work-partitioning helpers: properties\<close>

lemma sint_mul_add_32:
  "sint (a * b + c :: 32 word) = signed_take_bit 31 (int (unat a * unat b + unat c))"
proof -
  have "sint (a * b + c) = signed_take_bit 31 (uint (a * b + c))"
    by (simp add: sint_uint)
  also have "uint (a * b + c) = take_bit 32 (uint a * uint b + uint c)"
    by (simp add: uint_word_ariths take_bit_eq_mod mod_simps)
  also have "signed_take_bit 31 (take_bit 32 (uint a * uint b + uint c))
               = signed_take_bit 31 (uint a * uint b + uint c)"
    by (simp add: signed_take_bit_take_bit)
  finally show ?thesis
    by simp
qed

lemma sint_mul_32:
  "sint (a * b :: 32 word) = signed_take_bit 31 (int (unat a * unat b))"
  using sint_mul_add_32 [of a b 0] by simp

lemma signed_take_bit_31_nat:
  fixes n :: nat
  assumes "n < 2 ^ 31"
  shows "signed_take_bit 31 (int n) = int n"
proof (rule signed_take_bit_int_eq_self)
  show "- (2 ^ 31) \<le> int n"
    by simp
  from assms have "int n < int (2 ^ 31)"
    by (simp only: of_nat_less_iff)
  then show "int n < 2 ^ 31"
    by simp
qed




subsection \<open>The grid-strided loop\<close>

lemma filter_upto_skip:
  assumes "a \<le> c" and "\<And>i. a \<le> i \<Longrightarrow> i < c \<Longrightarrow> \<not> P i"
  shows "filter P [a..b] = filter P [c..b]"
proof (cases "c \<le> b")
  case True
  with assms(1) have "[a..b] = [a..c - 1] @ [c..b]"
    by (simp add: upto_split1)
  moreover have "filter P [a..c - 1] = []"
    using assms(2) by (auto simp: filter_empty_conv)
  ultimately show ?thesis
    by simp
next
  case False
  then have "filter P [a..b] = []"
    using assms(2) by (auto simp: filter_empty_conv)
  with False show ?thesis
    by simp
qed

lemma residue_gap:
  fixes T :: int
  assumes "idx < i" "i < idx + T"
  shows "i mod T \<noteq> idx mod T"
proof
  assume "i mod T = idx mod T"
  then have "T dvd i - idx"
    by (simp add: mod_eq_dvd_iff)
  moreover from assms have "0 < i - idx" "i - idx < T"
    by simp_all
  ultimately show False
    using zdvd_not_zless by blast
qed

text \<open>
  A run that starts at a non-negative index, under the bound that keeps every increment
  inside \<^verbatim>\<open>int\<close>: it returns, having added the indices from \<open>idx\<close> on that are congruent
  to \<open>idx\<close> modulo the stride.
\<close>

lemma strided_loop_run:
  assumes T: "0 < T" and bound: "N + T - 1 \<le> INT_MAX" and lo: "0 \<le> idx"
  shows "strided_loop idx N T acc
           = Some (Inr (acc @ filter (\<lambda>i. i mod T = idx mod T) [idx..N - 1]))"
  using lo
proof (induction "nat (N - idx)" arbitrary: idx acc rule: less_induct)
  case less
  show ?case
  proof (cases "idx < N")
    case False
    then show ?thesis
      by (subst strided_loop.simps) simp
  next
    case True
    have in_range: "INT_MIN \<le> idx + T \<and> idx + T \<le> INT_MAX"
      using True T bound less.prems by (simp add: INT_MIN_def)
    have "nat (N - (idx + T)) < nat (N - idx)"
      using True T by simp
    moreover have "0 \<le> idx + T"
      using T less.prems by simp
    ultimately have rest: "strided_loop (idx + T) N T (acc @ [idx])
        = Some (Inr ((acc @ [idx]) @ filter (\<lambda>i. i mod T = (idx + T) mod T) [idx + T..N - 1]))"
      by (rule less.hyps)
    have "[idx..N - 1] = idx # [idx + 1..N - 1]"
      using True by (simp add: upto_rec1)
    moreover have "filter (\<lambda>i. i mod T = idx mod T) [idx + 1..N - 1]
                     = filter (\<lambda>i. i mod T = idx mod T) [idx + T..N - 1]"
    proof (rule filter_upto_skip)
      show "idx + 1 \<le> idx + T"
        using T by simp
    next
      fix i
      assume "idx + 1 \<le> i" "i < idx + T"
      then show "\<not> i mod T = idx mod T"
        using residue_gap [of idx i T] by simp
    qed
    ultimately have "filter (\<lambda>i. i mod T = idx mod T) [idx..N - 1]
                       = idx # filter (\<lambda>i. i mod T = idx mod T) [idx + T..N - 1]"
      by simp
    with True in_range rest show ?thesis
      by (subst strided_loop.simps) simp
  qed
qed

lemma thread_indices:
  assumes "0 \<le> t" "t < T"
  shows "filter (\<lambda>i. i mod T = t mod T) [t..N - 1] = filter (\<lambda>i. i mod T = t) [0..N - 1]"
proof -
  have "t mod T = t"
    using assms by simp
  moreover have "filter (\<lambda>i. i mod T = t) [0..N - 1] = filter (\<lambda>i. i mod T = t) [t..N - 1]"
    using assms by (intro filter_upto_skip) auto
  ultimately show ?thesis
    by simp
qed

lemma strided_loop_thread:
  assumes "1 \<le> T" "N + T - 1 \<le> INT_MAX" "0 \<le> t" "t < T"
  shows "strided_loop t N T [] = Some (Inr (filter (\<lambda>i. i mod T = t) [0..N - 1]))"
  using strided_loop_run [of T N t "[]"] thread_indices [of t T N] assms
  by simp

lemma strided_loop_no_iteration:
  "N \<le> t \<Longrightarrow> strided_loop t N T [] = Some (Inr [])"
  by (subst strided_loop.simps) simp

lemma count_list_filter:
  "count_list (filter P xs) x = (if P x then count_list xs x else 0)"
  by (induction xs) auto

lemma count_list_upto:
  "count_list [a..b] x = (if a \<le> x \<and> x \<le> b then 1 else 0)"
proof (induction a b rule: upto.induct)
  case (1 i j)
  show ?case
  proof (cases "i \<le> j")
    case True
    then have "[i..j] = i # [i + 1..j]"
      by (simp add: upto_rec1)
    with True 1 show ?thesis
      by auto
  next
    case False
    then show ?thesis
      by simp
  qed
qed

lemma visits_per_index:
  fixes T :: int
  assumes "1 \<le> T"
  shows "(\<Sum>t\<in>{0..<T}. count_list (filter (\<lambda>i. i mod T = t) [0..N - 1]) x)
           = (if 0 \<le> x \<and> x < N then 1 else 0)"
proof -
  have "x mod T \<in> {0..<T}"
    using assms by simp
  then have "(\<Sum>t\<in>{0..<T}. if x mod T = t then count_list [0..N - 1] x else 0)
               = count_list [0..N - 1] x"
    by (simp add: sum.delta')
  then show ?thesis
    by (simp add: count_list_filter count_list_upto)
qed

text \<open>
  Above the bound: whenever \<open>N + T - 1\<close> exceeds \<^verbatim>\<open>INT_MAX\<close>, the thread that visits the
  last element runs into the overflow. So the bound is the exact one.
\<close>

lemma strided_loop_overflow_run:
  assumes T: "0 < T" and over: "INT_MAX < N - 1 + T"
    and "0 \<le> idx" and "idx < N" and "idx mod T = (N - 1) mod T"
  shows "strided_loop idx N T acc = Some (Inl SignedOverflow)"
  using assms(3-5)
proof (induction "nat (N - idx)" arbitrary: idx acc rule: less_induct)
  case less
  show ?case
  proof (cases "idx + T \<le> INT_MAX")
    case False
    with less.prems show ?thesis
      by (subst strided_loop.simps) simp
  next
    case True
    with over have "idx < N - 1"
      by simp
    moreover have "T dvd N - 1 - idx"
    proof -
      from less.prems(3) have "(N - 1) mod T = idx mod T"
        by simp
      then show ?thesis
        by (simp only: mod_eq_dvd_iff)
    qed
    ultimately have "T \<le> N - 1 - idx"
      using zdvd_imp_le [of T "N - 1 - idx"] by simp
    then have next_in: "idx + T < N"
      by simp
    have "nat (N - (idx + T)) < nat (N - idx)"
      using T less.prems by simp
    moreover have "0 \<le> idx + T" "(idx + T) mod T = (N - 1) mod T"
      using T less.prems by simp_all
    ultimately have "strided_loop (idx + T) N T (acc @ [idx]) = Some (Inl SignedOverflow)"
      using next_in by (intro less.hyps)
    moreover have "INT_MIN \<le> idx + T"
      using T less.prems by (simp add: INT_MIN_def)
    ultimately show ?thesis
      using True less.prems by (subst strided_loop.simps) simp
  qed
qed

lemma strided_loop_bound_is_needed:
  assumes "0 < N" and "1 \<le> T" and "INT_MAX < N + T - 1"
  shows "0 \<le> (N - 1) mod T \<and> (N - 1) mod T < T
       \<and> strided_loop ((N - 1) mod T) N T [] = Some (Inl SignedOverflow)"
proof -
  have "(N - 1) mod T \<le> N - 1"
    using assms(1,2) by (intro zmod_le_nonneg_dividend) simp
  then have "(N - 1) mod T < N"
    by simp
  moreover have "0 \<le> (N - 1) mod T" "(N - 1) mod T < T"
    using assms(2) by simp_all
  moreover have "INT_MAX < N - 1 + T"
    using assms(3) by simp
  ultimately show ?thesis
    using assms(2) strided_loop_overflow_run [of T N "(N - 1) mod T" "[]"] by simp
qed

text \<open>
  Claim C1, as the idiom is written. Let \<open>N \<ge> 0\<close> elements be shared among \<open>T \<ge> 1\<close>
  threads, with \<open>N + T - 1\<close> no larger than \<^verbatim>\<open>INT_MAX\<close>, so that no \<^verbatim>\<open>idx += T\<close> leaves the
  range of \<^verbatim>\<open>int\<close>. Then the loop of every thread \<open>t\<close> in \<open>[0, T)\<close> returns, having visited
  the indices of \<open>[0, N)\<close> congruent to \<open>t\<close> modulo \<open>T\<close>, in ascending order and none of
  them twice. The sets visited by two threads are disjoint, their union over all threads
  is \<open>[0, N)\<close>, and every index of \<open>[0, N)\<close> is visited once in all (no other index is
  visited at all). A thread that starts at or beyond \<open>N\<close> visits nothing. With one thread,
  and so with the offset and stride the two helpers return in host code, the loop visits
  \<open>0, 1, ..., N - 1\<close> in this order.
\<close>

theorem strided_loops_partition:
  assumes "0 \<le> N" and "1 \<le> T" and "N + T - 1 \<le> INT_MAX"
  shows "(let V = (\<lambda>t. filter (\<lambda>i. i mod T = t) [0..N - 1]) in
            (\<forall>t. 0 \<le> t \<and> t < T \<longrightarrow> strided_loop t N T [] = Some (Inr (V t)))
          \<and> (\<forall>t. sorted (V t) \<and> distinct (V t))
          \<and> (\<forall>t u. t \<noteq> u \<longrightarrow> set (V t) \<inter> set (V u) = {})
          \<and> (\<Union>t\<in>{0..<T}. set (V t)) = {0..<N}
          \<and> (\<forall>x. (\<Sum>t\<in>{0..<T}. count_list (V t) x) = (if 0 \<le> x \<and> x < N then 1 else 0))
          \<and> (\<forall>t. N \<le> t \<longrightarrow> strided_loop t N T [] = Some (Inr []))
          \<and> (T = 1 \<longrightarrow> strided_loop 0 N T [] = Some (Inr [0..N - 1]))
          \<and> (\<not> HEMI_DEV_CODE b \<longrightarrow>
                strided_loop (hemiGetElementOffset b c) N (hemiGetElementStride b c) []
                  = Some (Inr [0..N - 1])))"
proof -
  define V where "V = (\<lambda>t. filter (\<lambda>i. i mod T = t) [0..N - 1])"
  have each: "\<forall>t. 0 \<le> t \<and> t < T \<longrightarrow> strided_loop t N T [] = Some (Inr (V t))"
    using assms by (simp add: V_def strided_loop_thread)
  have ascending: "\<forall>t. sorted (V t) \<and> distinct (V t)"
    by (simp add: V_def sorted_wrt_filter)
  have disjoint: "\<forall>t u. t \<noteq> u \<longrightarrow> set (V t) \<inter> set (V u) = {}"
    by (auto simp: V_def)
  have cover: "(\<Union>t\<in>{0..<T}. set (V t)) = {0..<N}"
  proof
    show "(\<Union>t\<in>{0..<T}. set (V t)) \<subseteq> {0..<N}"
      by (auto simp: V_def)
  next
    show "{0..<N} \<subseteq> (\<Union>t\<in>{0..<T}. set (V t))"
    proof
      fix x
      assume "x \<in> {0..<N}"
      moreover have "x mod T \<in> {0..<T}"
        using assms(2) by simp
      ultimately show "x \<in> (\<Union>t\<in>{0..<T}. set (V t))"
        by (auto simp: V_def)
    qed
  qed
  have once: "\<forall>x. (\<Sum>t\<in>{0..<T}. count_list (V t) x) = (if 0 \<le> x \<and> x < N then 1 else 0)"
    using assms(2) by (simp add: V_def visits_per_index)
  have none: "\<forall>t. N \<le> t \<longrightarrow> strided_loop t N T [] = Some (Inr [])"
    by (simp add: strided_loop_no_iteration)
  have scan: "strided_loop 0 N 1 [] = Some (Inr [0..N - 1])"
    using assms strided_loop_thread [of 1 N 0] by simp
  have host: "\<not> HEMI_DEV_CODE b \<longrightarrow>
                strided_loop (hemiGetElementOffset b c) N (hemiGetElementStride b c) []
                  = Some (Inr [0..N - 1])"
    using scan by (simp add: hemiGetElementOffset_def hemiGetElementStride_def)
  from each ascending disjoint cover once none scan host show ?thesis
    unfolding Let_def V_def by blast
qed

theorem strided_loops_partition_witness:
  "(0::int) \<le> 10 \<and> (1::int) \<le> 4 \<and> (10::int) + 4 - 1 \<le> INT_MAX
   \<and> strided_loop 0 10 4 [] = Some (Inr [0, 4, 8])
   \<and> strided_loop 1 10 4 [] = Some (Inr [1, 5, 9])
   \<and> strided_loop 2 10 4 [] = Some (Inr [2, 6])
   \<and> strided_loop 3 10 4 [] = Some (Inr [3, 7])
   \<and> strided_loop (hemiGetElementOffset host_build sample_thread) 10
        (hemiGetElementStride host_build sample_thread) []
       = Some (Inr [0, 1, 2, 3, 4, 5, 6, 7, 8, 9])"
proof -
  have h: "(0::int) \<le> 10" "(1::int) \<le> 4" "(10::int) + 4 - 1 \<le> INT_MAX"
    by (simp_all add: INT_MAX_def)
  have nd: "\<not> HEMI_DEV_CODE host_build"
    by (simp add: HEMI_DEV_CODE_def host_build_def)
  note p = strided_loops_partition [OF h, of host_build sample_thread, unfolded Let_def]
  from p have "strided_loop 0 10 4 [] = Some (Inr (filter (\<lambda>i. i mod 4 = 0) [0..10 - 1]))"
    and "strided_loop 1 10 4 [] = Some (Inr (filter (\<lambda>i. i mod 4 = 1) [0..10 - 1]))"
    and "strided_loop 2 10 4 [] = Some (Inr (filter (\<lambda>i. i mod 4 = 2) [0..10 - 1]))"
    and "strided_loop 3 10 4 [] = Some (Inr (filter (\<lambda>i. i mod 4 = 3) [0..10 - 1]))"
    by simp_all
  moreover from p nd
  have "strided_loop (hemiGetElementOffset host_build sample_thread) 10
          (hemiGetElementStride host_build sample_thread) [] = Some (Inr [0..10 - 1])"
    by blast
  ultimately show ?thesis
    using h by (simp add: upto.simps)
qed

text \<open>
  Without the bound the claim fails. Two elements and 2147483647 threads (one block
  each, say): thread 1 visits index 1, and its \<^verbatim>\<open>idx += stride\<close> is then \<open>2 ^ 31\<close>, out of
  the range of \<^verbatim>\<open>int\<close>. Likewise 2147483647 elements and 65536 threads: thread 65534 is
  the one that visits the last element, and its next increment overflows.
\<close>

theorem strided_loop_overflows:
  "(0::int) \<le> 2 \<and> (1::int) \<le> 2147483647 \<and> (1::int) < 2147483647
   \<and> 2147483647 \<le> INT_MAX
   \<and> strided_loop 1 2 2147483647 [] = Some (Inl SignedOverflow)
   \<and> strided_loop 65534 2147483647 65536 [] = Some (Inl SignedOverflow)"
proof -
  have "strided_loop 1 2 2147483647 [] = Some (Inl SignedOverflow)"
    by (subst strided_loop.simps) (simp add: INT_MAX_def)
  moreover have "strided_loop 65534 2147483647 65536 [] = Some (Inl SignedOverflow)"
    by (rule strided_loop_overflow_run) (simp_all add: INT_MAX_def)
  ultimately show ?thesis
    by (simp add: INT_MAX_def)
qed

subsection \<open>The loop on the device\<close>

text \<open>
  The threads of a one-dimensional launch whose thread count is below \<open>2 ^ 31\<close> are the
  threads of the theorem above: the stride each of them gets is the thread count \<open>T\<close>, its
  offset is its flattened index, a value of \<open>[0, T)\<close>, and its loop visits the indices of
  \<open>[0, N)\<close> congruent to that offset.
\<close>

lemma device_offset_in_range:
  assumes dev: "HEMI_DEV_CODE b"
    and total: "unat (dim_x (blockDim c)) * unat (dim_x (gridDim c)) < 2 ^ 31"
    and blk: "dim_x (blockIdx c) < dim_x (gridDim c)"
    and thr: "dim_x (threadIdx c) < dim_x (blockDim c)"
  shows "hemiGetElementStride b c = int (unat (dim_x (blockDim c)) * unat (dim_x (gridDim c)))"
    and "hemiGetElementOffset b c
           = int (unat (dim_x (blockIdx c)) * unat (dim_x (blockDim c)) + unat (dim_x (threadIdx c)))"
    and "0 \<le> hemiGetElementOffset b c"
    and "hemiGetElementOffset b c < hemiGetElementStride b c"
proof -
  define bi where "bi = unat (dim_x (blockIdx c))"
  define bd where "bd = unat (dim_x (blockDim c))"
  define ti where "ti = unat (dim_x (threadIdx c))"
  define gd where "gd = unat (dim_x (gridDim c))"
  have lt: "bi < gd" "ti < bd"
    using blk thr by (simp_all add: bi_def gd_def ti_def bd_def word_less_nat_alt)
  have "bi * bd + ti < (bi + 1) * bd"
    using lt by simp
  also have "\<dots> \<le> gd * bd"
    using lt by (intro mult_le_mono1) simp
  finally have flat: "bi * bd + ti < bd * gd"
    by (simp add: mult.commute)
  with total have small: "bi * bd + ti < 2 ^ 31"
    by (simp add: bd_def gd_def)
  show s: "hemiGetElementStride b c = int (unat (dim_x (blockDim c)) * unat (dim_x (gridDim c)))"
    using dev total by (simp add: hemiGetElementStride_def sint_mul_32 signed_take_bit_31_nat del: of_nat_mult)
  show o: "hemiGetElementOffset b c
           = int (unat (dim_x (blockIdx c)) * unat (dim_x (blockDim c)) + unat (dim_x (threadIdx c)))"
    using dev small
    by (simp add: hemiGetElementOffset_def sint_mul_add_32 signed_take_bit_31_nat bi_def bd_def ti_def
        del: of_nat_mult of_nat_add)
  show "0 \<le> hemiGetElementOffset b c"
    unfolding o by simp
  show "hemiGetElementOffset b c < hemiGetElementStride b c"
    unfolding o s using flat by (simp only: of_nat_less_iff bi_def bd_def ti_def gd_def)
qed

lemma device_thread_visits:
  assumes "HEMI_DEV_CODE b"
    and "unat (dim_x (blockDim c)) * unat (dim_x (gridDim c)) < 2 ^ 31"
    and "dim_x (blockIdx c) < dim_x (gridDim c)"
    and "dim_x (threadIdx c) < dim_x (blockDim c)"
    and "N + hemiGetElementStride b c - 1 \<le> INT_MAX"
  shows "strided_loop (hemiGetElementOffset b c) N (hemiGetElementStride b c) []
           = Some (Inr (filter (\<lambda>i. i mod hemiGetElementStride b c = hemiGetElementOffset b c)
                          [0..N - 1]))"
proof -
  note r = device_offset_in_range [OF assms(1-4)]
  from r(3,4) have "1 \<le> hemiGetElementStride b c"
    by simp
  with r(3,4) assms(5) show ?thesis
    by (intro strided_loop_thread)
qed

end
